theory Spec2Isabelle
  imports Main "HOL-Library.Char_ord" "HOL-Library.List_Lexorder"
begin

section \<open>The lexer (lexer.h, lexer.cpp)\<close>

subsection \<open>Tokens\<close>

text \<open>
  The variant \<open>parse::Token\<close>. The constructors carry the prefix \<open>T\<close> because
  \<open>None\<close>, \<open>True\<close>, \<open>False\<close> are constants of HOL and \<open>Return\<close>, \<open>And\<close>,
  \<open>Or\<close>, \<open>Print\<close> name nodes of the syntax tree further down.
\<close>

datatype token =
    TNumber int | TId string | TChar char | TString string
  | TClass | TReturn | TIf | TElse | TDef | TNewline | TPrint | TIndent | TDedent
  | TAnd | TOr | TNot | TEq | TNotEq | TLessOrEq | TGreaterOrEq
  | TNone | TTrue | TFalse | TEof

subsection \<open>The input stream\<close>

text \<open>
  \<open>std::istream\<close> is modelled by the list of characters not yet read. \<open>peek\<close> at the
  end of the stream gives the integer \<open>EOF\<close>, here \<open>None\<close>; \<open>ignore\<close> and \<open>get\<close> at
  the end read nothing. Where the source stores the result of \<open>peek\<close> or \<open>get\<close> in a
  \<open>char\<close>, \<open>EOF\<close> (-1) becomes the byte 0xFF (\<open>char\<close> is signed on the usual targets,
  so that \<open>c == EOF\<close> holds for that byte and for the real end of the stream alike).
\<close>

definition peek :: "char list \<Rightarrow> char option" where
  "peek inp = (case inp of [] \<Rightarrow> None | c # _ \<Rightarrow> Some c)"

definition ignore :: "char list \<Rightarrow> char list" where
  "ignore inp = (case inp of [] \<Rightarrow> [] | _ # cs \<Rightarrow> cs)"

definition EOF_char :: char where
  "EOF_char = CHR 0xFF"

definition peek_char :: "char list \<Rightarrow> char" where
  "peek_char inp = (case inp of [] \<Rightarrow> EOF_char | c # _ \<Rightarrow> c)"

definition get_char :: "char list \<Rightarrow> char \<times> char list" where
  "get_char inp = (case inp of [] \<Rightarrow> (EOF_char, []) | c # cs \<Rightarrow> (c, cs))"

definition newline :: char where "newline = CHR 0x0A"
definition tab :: char where "tab = CHR 0x09"
definition space :: char where "space = CHR 0x20"
definition hash :: char where "hash = CHR 0x23"
definition squote :: char where "squote = CHR 0x27"
definition dquote :: char where "dquote = CHR 0x22"
definition backslash :: char where "backslash = CHR 0x5C"

text \<open>\<open>std::isdigit\<close> and \<open>std::isalpha\<close> in the "C" locale.\<close>

definition isdigit :: "char \<Rightarrow> bool" where
  "isdigit c = (48 \<le> (of_char c :: int) \<and> (of_char c :: int) \<le> 57)"

definition isalpha :: "char \<Rightarrow> bool" where
  "isalpha c = ((65 \<le> (of_char c :: int) \<and> (of_char c :: int) \<le> 90)
              \<or> (97 \<le> (of_char c :: int) \<and> (of_char c :: int) \<le> 122))"

subsection \<open>The lexer's state and results\<close>

text \<open>
  The members of \<open>parse::Lexer\<close>. \<open>indent_sizes\<close> is the \<open>std::stack<uint8_t>\<close>, its
  top first; \<open>tokens\<close> is the deque, the current token last.
\<close>

record lexer =
  input :: "char list"
  current_indent_size :: nat
  indent_sizes :: "nat list"
  tokens :: "token list"

text \<open>
  What can be thrown: \<open>LexerError\<close>, the \<open>std::out_of_range\<close> of \<open>std::stoi\<close>, and,
  for completeness of the model, the undefined \<open>top()\<close> or \<open>pop()\<close> of an empty stack.
  A call either returns (\<open>Next\<close>) or throws (\<open>Throws\<close>); both leave a lexer behind.
\<close>

datatype lex_error = LexerError string | StoiOutOfRange | EmptyStack

datatype lex_result = Next lexer | Throws lex_error lexer

fun lexer_of :: "lex_result \<Rightarrow> lexer" where
  "lexer_of (Next l) = l"
| "lexer_of (Throws e l) = l"

definition top :: "nat list \<Rightarrow> nat option" where
  "top st = (case st of [] \<Rightarrow> None | t # _ \<Rightarrow> Some t)"

definition push_back :: "token \<Rightarrow> lexer \<Rightarrow> lexer" where
  "push_back t l = l\<lparr>tokens := tokens l @ [t]\<rparr>"

definition CurrentToken_Is :: "lexer \<Rightarrow> token \<Rightarrow> bool" where
  "CurrentToken_Is l t = (tokens l \<noteq> [] \<and> last (tokens l) = t)"

subsection \<open>MoveToNextToken\<close>

text \<open>
  The \<open>while (true)\<close> loop: count and skip spaces, skip a comment up to the end of its
  line, and, when a line end follows and the lexer is at the start of a line
  (\<open>skip\<close> is \<open>tokens_.empty() || is_new_line\<close>), drop it and start over. It returns the
  last \<open>space_count\<close> and the rest of the stream. Every round of the loop consumes a
  character, whence its termination.
\<close>

function MoveToNextToken_loop :: "bool \<Rightarrow> char list \<Rightarrow> nat \<times> char list" where
  "MoveToNextToken_loop skip inp =
     (let space_count = length (takeWhile (\<lambda>c. c = space) inp);
          inp1 = dropWhile (\<lambda>c. c = space) inp;
          inp2 = (if peek inp1 = Some hash then dropWhile (\<lambda>c. c \<noteq> newline) inp1 else inp1)
      in if peek inp2 = Some newline \<and> skip
         then MoveToNextToken_loop skip (ignore inp2)
         else (space_count, inp2))"
  by pat_completeness auto
termination
proof (relation "measure (\<lambda>(skip, inp). length inp)", goal_cases)
  case 1
  show ?case by simp
next
  case (2 skip inp space_count inp1 inp2)
  have a: "length inp1 \<le> length inp"
    using 2(2) by (simp add: length_dropWhile_le)
  have b: "length inp2 \<le> length inp1"
    using 2(3) by (simp add: length_dropWhile_le)
  have c: "inp2 \<noteq> []"
    using 2(4) by (auto simp: peek_def)
  then have "length (ignore inp2) < length inp2"
    by (cases inp2) (simp_all add: ignore_def)
  with a b show ?case by simp
qed

declare MoveToNextToken_loop.simps [simp del]

definition MoveToNextToken :: "lexer \<Rightarrow> lex_result" where
  "MoveToNextToken l =
     (let is_new_line = CurrentToken_Is l TNewline;
          (space_count, inp) = MoveToNextToken_loop (tokens l = [] \<or> is_new_line) (input l);
          l1 = l\<lparr>input := inp\<rparr>
      in if is_new_line \<and> space_count mod 2 \<noteq> 0
         then Throws (LexerError ''indent size must be even'') l1
         else if is_new_line
         then (case top (indent_sizes l1) of
                 None \<Rightarrow> Throws EmptyStack l1
               | Some t \<Rightarrow> if space_count \<noteq> t
                           then Next (l1\<lparr>current_indent_size := space_count\<rparr>)
                           else Next l1)
         else Next l1)"

subsection \<open>The token parsers\<close>

text \<open>
  \<open>ParseIndent\<close>: \<open>push\<close> stores the \<open>size_t\<close> in a \<open>uint8_t\<close>, that is modulo 256.
\<close>

definition ParseIndent :: "lexer \<Rightarrow> lex_result" where
  "ParseIndent l =
     (case indent_sizes l of
        [] \<Rightarrow> Throws EmptyStack l
      | t # rest \<Rightarrow>
          if current_indent_size l > t
          then Next (push_back TIndent (l\<lparr>indent_sizes := (current_indent_size l mod 256) # t # rest\<rparr>))
          else Next (push_back TDedent (l\<lparr>indent_sizes := rest\<rparr>)))"

definition ParseNewLine :: "lexer \<Rightarrow> lex_result" where
  "ParseNewLine l = Next (push_back TNewline (l\<lparr>input := ignore (input l)\<rparr>))"

definition ParseEof :: "lexer \<Rightarrow> lex_result" where
  "ParseEof l =
     (if tokens l = [] \<or> CurrentToken_Is l TNewline \<or> CurrentToken_Is l TEof
         \<or> CurrentToken_Is l TDedent
      then Next (push_back TEof l)
      else Next (push_back TNewline l))"

text \<open>
  \<open>ParseDigit\<close>: the run of digits, read by \<open>std::stoi\<close>, which throws
  \<open>std::out_of_range\<close> above \<open>INT_MAX\<close>.
\<close>

definition digit_value :: "char \<Rightarrow> int" where
  "digit_value c = (of_char c :: int) - 48"

definition decimal :: "char list \<Rightarrow> int" where
  "decimal ds = foldl (\<lambda>acc c. 10 * acc + digit_value c) 0 ds"

definition ParseDigit :: "lexer \<Rightarrow> lex_result" where
  "ParseDigit l =
     (let ds = takeWhile isdigit (input l);
          l1 = l\<lparr>input := dropWhile isdigit (input l)\<rparr>
      in if decimal ds > 2147483647 then Throws StoiOutOfRange l1
         else Next (push_back (TNumber (decimal ds)) l1))"

definition keywords_table :: "string \<Rightarrow> token option" where
  "keywords_table = map_of
     [(''class'', TClass), (''return'', TReturn), (''if'', TIf), (''else'', TElse),
      (''def'', TDef), (''print'', TPrint), (''and'', TAnd), (''or'', TOr),
      (''not'', TNot), (''None'', TNone), (''True'', TTrue), (''False'', TFalse)]"

definition ident_char :: "char \<Rightarrow> bool" where
  "ident_char c = (isalpha c \<or> isdigit c \<or> c = CHR ''_'')"

definition ParseIdentifier :: "lexer \<Rightarrow> lex_result" where
  "ParseIdentifier l =
     (let identifier = takeWhile ident_char (input l);
          l1 = l\<lparr>input := dropWhile ident_char (input l)\<rparr>
      in case keywords_table identifier of
           Some t \<Rightarrow> Next (push_back t l1)
         | None \<Rightarrow> Next (push_back (TId identifier) l1))"

text \<open>
  \<open>ParseString\<close>: the loop reads with \<open>get\<close> until it meets the opening quote again.
  It has no test for the end of the stream: there \<open>get\<close> keeps returning \<open>EOF\<close>, which
  the loop appends as a character. The loop may therefore not return, and its model is a
  partial function: \<open>None\<close> stands for a run that never ends.
\<close>

partial_function (option) ParseString_loop ::
  "char \<Rightarrow> char list \<Rightarrow> string \<Rightarrow> (string \<times> char list) option" where
  "ParseString_loop quote inp str =
     (case get_char inp of (cur, inp1) \<Rightarrow>
        if cur = quote then Some (str, inp1)
        else if cur = backslash then
          (case get_char inp1 of (nxt, inp2) \<Rightarrow>
             if nxt = squote \<or> nxt = dquote then ParseString_loop quote inp2 (str @ [nxt])
             else if nxt = CHR ''n'' then ParseString_loop quote inp2 (str @ [newline])
             else if nxt = CHR ''t'' then ParseString_loop quote inp2 (str @ [tab])
             else ParseString_loop quote inp2 (str @ [cur, nxt]))
        else ParseString_loop quote inp1 (str @ [cur]))"

declare ParseString_loop.simps [code]

definition ParseString :: "lexer \<Rightarrow> lex_result option" where
  "ParseString l =
     (case get_char (input l) of (quote, inp1) \<Rightarrow>
        (case ParseString_loop quote inp1 [] of
           None \<Rightarrow> None
         | Some (str, inp2) \<Rightarrow> Some (Next (push_back (TString str) (l\<lparr>input := inp2\<rparr>)))))"

definition comparison_lexems :: "string \<Rightarrow> token option" where
  "comparison_lexems = map_of
     [(''=='', TEq), (''!='', TNotEq), (''<='', TLessOrEq), (''>='', TGreaterOrEq)]"

text \<open>
  \<open>ParseLexem\<close>: \<open>comparison_lexems.at\<close> would throw on a missing key; the caller only
  passes \<open>!\<close>, \<open><\<close>, \<open>>\<close> or \<open>=\<close>, all of which the table has with \<open>=\<close> appended, and
  the model falls back to the single character otherwise.
\<close>

definition ParseLexem :: "lexer \<Rightarrow> lex_result" where
  "ParseLexem l =
     (case get_char (input l) of (c, inp1) \<Rightarrow>
        if peek inp1 = Some (CHR ''='')
        then (case comparison_lexems [c, CHR ''=''] of
                Some t \<Rightarrow> Next (push_back t (l\<lparr>input := ignore inp1\<rparr>))
              | None \<Rightarrow> Next (push_back (TChar c) (l\<lparr>input := inp1\<rparr>)))
        else Next (push_back (TChar c) (l\<lparr>input := inp1\<rparr>)))"

subsection \<open>NextToken and the constructor\<close>

definition NextToken :: "lexer \<Rightarrow> lex_result option" where
  "NextToken l0 =
     (case MoveToNextToken l0 of
        Throws e l \<Rightarrow> Some (Throws e l)
      | Next l \<Rightarrow>
          (let c = peek_char (input l) in
           case top (indent_sizes l) of
             None \<Rightarrow> Some (Throws EmptyStack l)
           | Some t \<Rightarrow>
               if current_indent_size l \<noteq> t then Some (ParseIndent l)
               else if isdigit c then Some (ParseDigit l)
               else if isalpha c \<or> c = CHR ''_'' then Some (ParseIdentifier l)
               else if c = squote \<or> c = dquote then ParseString l
               else if c = CHR ''!'' \<or> c = CHR ''<'' \<or> c = CHR ''>'' \<or> c = CHR ''=''
                 then Some (ParseLexem l)
               else if c = newline then Some (ParseNewLine l)
               else if c = EOF_char then Some (ParseEof l)
               else Some (Next (push_back (TChar c) (l\<lparr>input := ignore (input l)\<rparr>)))))"

text \<open>
  The constructor pushes \<open>current_indent_size_\<close> (0) on the stack and calls
  \<open>NextToken\<close> once. \<open>NextTokens n\<close> is \<open>n\<close> further calls, stopped by the first throw.
\<close>

definition initial_lexer :: "char list \<Rightarrow> lexer" where
  "initial_lexer inp = \<lparr>input = inp, current_indent_size = 0, indent_sizes = [0], tokens = []\<rparr>"

fun NextTokens :: "nat \<Rightarrow> lexer \<Rightarrow> lex_result option" where
  "NextTokens 0 l = Some (Next l)"
| "NextTokens (Suc n) l =
     (case NextToken l of
        None \<Rightarrow> None
      | Some (Throws e l1) \<Rightarrow> Some (Throws e l1)
      | Some (Next l1) \<Rightarrow> NextTokens n l1)"

definition Lexer :: "char list \<Rightarrow> lex_result option" where
  "Lexer inp = NextToken (initial_lexer inp)"

text \<open>
  The tokens emitted for an input by the constructor and \<open>n\<close> further calls of
  \<open>NextToken\<close>; \<open>None\<close> when one of the calls does not return.
\<close>

definition token_stream :: "nat \<Rightarrow> char list \<Rightarrow> token list option" where
  "token_stream n inp = map_option (\<lambda>r. tokens (lexer_of r)) (NextTokens (Suc n) (initial_lexer inp))"

definition count_token :: "token \<Rightarrow> token list \<Rightarrow> nat" where
  "count_token t ts = length (filter (\<lambda>x. x = t) ts)"



section \<open>The runtime and the syntax tree (runtime.cpp, statement.h, statement.cpp)\<close>

subsection \<open>Syntax trees, classes and objects\<close>

text \<open>
  The subclasses of \<open>runtime::Executable\<close> are the constructors of \<open>stmt\<close>.
  \<^item> \<open>ValueStatement<T>\<close> is \<open>NumericConst\<close>, \<open>StringConst\<close>, \<open>BoolConst\<close>; \<open>ast::None\<close>
    is \<open>NoneConst\<close> and \<open>ast::Not\<close> is \<open>NotOp\<close> (both names are taken in HOL).
  \<^item> \<open>FieldAssignment\<close> holds its object as a \<open>VariableValue\<close>, here the dotted ids.
  \<^item> \<open>NewInstance\<close> has a member \<open>runtime::ClassInstance class_\<close>: the node owns one
    instance, built with the node, and \<open>Execute\<close> returns a non-owning holder of that very
    object. The first argument of the constructor \<open>NewInstance\<close> is the address of the
    node's instance; the fields of all instances live in the machine state.
  \<^item> \<open>Comparison\<close> takes its comparator as a \<open>std::function\<close>: one of the six
    comparators of the runtime, or any other function, here \<open>CmpFunction\<close> and a number
    that the build resolves.
  \<^item> A class is a name, its methods in order and its parent; a method is a name, its
    formal parameters and its body. \<open>Number\<close> holds an \<open>int\<close> of 32 bits.
\<close>

type_synonym addr = nat

datatype comparator =
    CmpEqual | CmpLess | CmpNotEqual | CmpGreater | CmpLessOrEqual | CmpGreaterOrEqual
  | CmpFunction nat

datatype stmt =
    NumericConst int | StringConst string | BoolConst bool | NoneConst
  | VariableValue "string list"
  | Assignment string stmt
  | FieldAssignment "string list" string stmt
  | Print "stmt list"
  | MethodCall stmt string "stmt list"
  | NewInstance addr klass "stmt list"
  | Stringify stmt
  | Add stmt stmt | Sub stmt stmt | Mult stmt stmt | Div stmt stmt
  | Or stmt stmt | And stmt stmt | NotOp stmt
  | Compound "stmt list"
  | MethodBody stmt
  | Return stmt
  | ClassDefinition klass
  | IfElse stmt stmt "stmt option"
  | Comparison comparator stmt stmt
and klass = Class string "meth list" "klass option"
and meth = Method string "string list" stmt

text \<open>
  \<open>ObjectHolder\<close>: empty (\<open>VNone\<close>) or pointing to an object. Numbers, strings, booleans and
  classes are immutable and stand for themselves; an instance is its address and class.
\<close>

datatype holder = VNone | VNumber int | VString string | VBool bool | VClass klass
  | VInstance addr klass

text \<open>
  \<open>Closure\<close> is the \<open>unordered_map\<close> from names to holders. The machine state holds what
  a call can change besides the closure it is given: the \<open>Fields()\<close> of every instance and
  the text written to \<open>context.GetOutputStream()\<close>.
\<close>

type_synonym closure = "string \<rightharpoonup> holder"

record machine =
  instance_fields :: "addr \<Rightarrow> closure"
  output_stream :: string

text \<open>
  A call returns a value, or throws: an \<open>ObjectHolder\<close> (the \<open>throw\<close> of \<open>Return\<close>) or a
  \<open>std::runtime_error\<close>. \<open>Undefined\<close> is a dereferenced null pointer or a failed
  \<open>assert\<close>; \<open>OutOfFuel\<close> is the evaluator's recursion cut short by the model.
  Whatever the result, the closure and the machine are left as the call has made them.
\<close>

datatype 'a result = Value 'a | Thrown holder | RuntimeError string | Undefined | OutOfFuel

type_synonym 'a exec_result = "'a result \<times> closure \<times> machine"
type_synonym executor = "stmt \<Rightarrow> closure \<Rightarrow> machine \<Rightarrow> holder exec_result"

definition bind :: "'a exec_result \<Rightarrow> ('a \<Rightarrow> closure \<Rightarrow> machine \<Rightarrow> 'b exec_result) \<Rightarrow> 'b exec_result" where
  "bind r f =
     (case r of
        (Value v, c, m) \<Rightarrow> f v c m
      | (Thrown h, c, m) \<Rightarrow> (Thrown h, c, m)
      | (RuntimeError e, c, m) \<Rightarrow> (RuntimeError e, c, m)
      | (Undefined, c, m) \<Rightarrow> (Undefined, c, m)
      | (OutOfFuel, c, m) \<Rightarrow> (OutOfFuel, c, m))"

definition bind_call :: "'a result \<times> machine \<Rightarrow> ('a \<Rightarrow> machine \<Rightarrow> 'b result \<times> machine) \<Rightarrow> 'b result \<times> machine" where
  "bind_call r f =
     (case r of
        (Value v, m) \<Rightarrow> f v m
      | (Thrown h, m) \<Rightarrow> (Thrown h, m)
      | (RuntimeError e, m) \<Rightarrow> (RuntimeError e, m)
      | (Undefined, m) \<Rightarrow> (Undefined, m)
      | (OutOfFuel, m) \<Rightarrow> (OutOfFuel, m))"

definition with_closure :: "closure \<Rightarrow> 'a result \<times> machine \<Rightarrow> 'a exec_result" where
  "with_closure c r = (case r of (x, m) \<Rightarrow> (x, c, m))"

fun method_name :: "meth \<Rightarrow> string" where "method_name (Method n ps b) = n"
fun formal_params :: "meth \<Rightarrow> string list" where "formal_params (Method n ps b) = ps"
fun body :: "meth \<Rightarrow> stmt" where "body (Method n ps b) = b"
fun GetName :: "klass \<Rightarrow> string" where "GetName (Class n ms p) = n"

text \<open>
  \<open>Class::GetMethod\<close>: the first method of that name among the class's own, else the
  parent's answer.
\<close>

fun GetMethod :: "klass \<Rightarrow> string \<Rightarrow> meth option" where
  "GetMethod (Class cname methods parent) name =
     (case find (\<lambda>m. method_name m = name) methods of
        Some m \<Rightarrow> Some m
      | None \<Rightarrow> (case parent of None \<Rightarrow> None | Some p \<Rightarrow> GetMethod p name))"

text \<open>
  Modelled from the spec: \<open>ClassInstance::HasMethod\<close> is declared in runtime.h, which is
  not among the sources. The spec: "\<open>has_method(name, argc)\<close> additionally verifies arity
  equals the number of declared formal parameters", of the method \<open>get_method\<close> returns.
  A call with the name alone, as in \<open>ClassInstance::Print\<close>, asks for no arguments.
\<close>

definition HasMethod :: "klass \<Rightarrow> string \<Rightarrow> nat \<Rightarrow> bool" where
  "HasMethod cls name argument_count =
     (case GetMethod cls name of
        None \<Rightarrow> False
      | Some m \<Rightarrow> length (formal_params m) = argument_count)"

definition IsTrue :: "holder \<Rightarrow> bool" where
  "IsTrue object =
     (case object of
        VNumber n \<Rightarrow> n \<noteq> 0
      | VString s \<Rightarrow> s \<noteq> []
      | VBool b \<Rightarrow> b
      | _ \<Rightarrow> False)"

text \<open>
  \<open>ClassInstance::Call\<close>: a fresh closure with \<open>self\<close> and the formal parameters bound in
  order, in which the body runs; the closure is dropped afterwards.
\<close>

definition Call :: "executor \<Rightarrow> addr \<Rightarrow> klass \<Rightarrow> string \<Rightarrow> holder list \<Rightarrow> machine \<Rightarrow> holder result \<times> machine" where
  "Call ex this cls method actual_args m =
     (if \<not> HasMethod cls method (length actual_args)
      then (RuntimeError (''no inplementation of '' @ method @ '' in '' @ GetName cls), m)
      else case GetMethod cls method of
             None \<Rightarrow> (Undefined, m)
           | Some method_ptr \<Rightarrow>
               (let closure = foldl (\<lambda>c (p, a). c(p \<mapsto> a)) [''self'' \<mapsto> VInstance this cls]
                                (zip (formal_params method_ptr) actual_args)
                in case ex (body method_ptr) closure m of (r, c1, m1) \<Rightarrow> (r, m1)))"


subsection \<open>Printing\<close>

text \<open>
  \<open>Print\<close> of each object. The decimal text of a number; a class prints as
  \<open>Class\<close> and its name (modelled from the spec: \<open>Class::Print\<close> is in runtime.h, the spec
  gives "\<open>Class <name>\<close>"); an instance prints through \<open>__str__\<close> when it has one, else
  as its address, whose text the implementation defines. The method \<open>__str__\<close> may return an
  instance again, so the recursion has its own fuel. An empty holder cannot be printed
  (\<open>operator->\<close> asserts).
\<close>

function digits :: "nat \<Rightarrow> string" where
  "digits n = (if n < 10 then [char_of (48 + n)] else digits (n div 10) @ [char_of (48 + n mod 10)])"
  by pat_completeness auto
termination
  by (relation "measure id") auto

declare digits.simps [simp del]

definition show_int :: "int \<Rightarrow> string" where
  "show_int i = (if i < 0 then CHR ''-'' # digits (nat (- i)) else digits (nat i))"

definition show_this :: "addr \<Rightarrow> string" where
  "show_this a = ''0x'' @ digits a"

primrec Print_holder :: "nat \<Rightarrow> executor \<Rightarrow> holder \<Rightarrow> machine \<Rightarrow> string result \<times> machine" where
  "Print_holder 0 ex object m = (OutOfFuel, m)"
| "Print_holder (Suc k) ex object m =
     (case object of
        VNone \<Rightarrow> (Undefined, m)
      | VNumber n \<Rightarrow> (Value (show_int n), m)
      | VString s \<Rightarrow> (Value s, m)
      | VBool b \<Rightarrow> (Value (if b then ''True'' else ''False''), m)
      | VClass cls \<Rightarrow> (Value (''Class '' @ GetName cls), m)
      | VInstance this cls \<Rightarrow>
          if HasMethod cls ''__str__'' 0
          then bind_call (Call ex this cls ''__str__'' [] m) (\<lambda>r m1. Print_holder k ex r m1)
          else (Value (show_this this), m))"

text \<open>The helpers \<open>AppendByStatement\<close> and \<open>ExecuteArguments\<close> of statement.cpp.\<close>

definition AppendByStatement :: "executor \<Rightarrow> nat \<Rightarrow> stmt \<Rightarrow> closure \<Rightarrow> machine \<Rightarrow> string exec_result" where
  "AppendByStatement ex k statement c m =
     bind (ex statement c m) (\<lambda>obj c1 m1.
       if obj \<noteq> VNone then with_closure c1 (Print_holder k ex obj m1)
       else (Value ''None'', c1, m1))"

fun ExecuteArguments :: "executor \<Rightarrow> stmt list \<Rightarrow> closure \<Rightarrow> machine \<Rightarrow> holder list exec_result" where
  "ExecuteArguments ex [] c m = (Value [], c, m)"
| "ExecuteArguments ex (argument # args) c m =
     bind (ex argument c m) (\<lambda>v c1 m1.
       bind (ExecuteArguments ex args c1 m1) (\<lambda>vs c2 m2. (Value (v # vs), c2, m2)))"

subsection \<open>Comparison\<close>

text \<open>
  \<open>dunder_target\<close> is the test \<open>instance_ptr && instance_ptr->HasMethod(name, 1u)\<close>;
  \<open>GetValue_Bool\<close> is \<open>.TryAs<Bool>()->GetValue()\<close> on the result of the call, undefined
  when the method returns anything but a \<open>Bool\<close>.
\<close>

definition dunder_target :: "holder \<Rightarrow> string \<Rightarrow> (addr \<times> klass) option" where
  "dunder_target object name =
     (case object of
        VInstance this cls \<Rightarrow> if HasMethod cls name 1 then Some (this, cls) else None
      | _ \<Rightarrow> None)"

definition GetValue_Bool :: "holder result \<times> machine \<Rightarrow> bool result \<times> machine" where
  "GetValue_Bool r =
     bind_call r (\<lambda>v m. case v of VBool b \<Rightarrow> (Value b, m) | _ \<Rightarrow> (Undefined, m))"

definition Equal :: "executor \<Rightarrow> holder \<Rightarrow> holder \<Rightarrow> machine \<Rightarrow> bool result \<times> machine" where
  "Equal ex lhs rhs m =
     (case (lhs, rhs) of
        (VNumber a, VNumber b) \<Rightarrow> (Value (a = b), m)
      | (VString a, VString b) \<Rightarrow> (Value (a = b), m)
      | (VBool a, VBool b) \<Rightarrow> (Value (a = b), m)
      | _ \<Rightarrow>
        (case dunder_target lhs ''__eq__'' of
           Some (this, cls) \<Rightarrow> GetValue_Bool (Call ex this cls ''__eq__'' [rhs] m)
         | None \<Rightarrow>
             if lhs = VNone \<and> rhs = VNone then (Value True, m)
             else (RuntimeError ''no viable equal operator'', m)))"

definition Less :: "executor \<Rightarrow> holder \<Rightarrow> holder \<Rightarrow> machine \<Rightarrow> bool result \<times> machine" where
  "Less ex lhs rhs m =
     (case (lhs, rhs) of
        (VNumber a, VNumber b) \<Rightarrow> (Value (a < b), m)
      | (VString a, VString b) \<Rightarrow> (Value (a < b), m)
      | (VBool a, VBool b) \<Rightarrow> (Value (a < b), m)
      | _ \<Rightarrow>
        (case dunder_target lhs ''__lt__'' of
           Some (this, cls) \<Rightarrow> GetValue_Bool (Call ex this cls ''__lt__'' [rhs] m)
         | None \<Rightarrow> (RuntimeError ''no viable comparator'', m)))"

text \<open>
  Modelled from the spec: \<open>NotEqual\<close>, \<open>Greater\<close>, \<open>LessOrEqual\<close> and \<open>GreaterOrEqual\<close>
  are not in runtime.cpp (runtime.h is not among the sources). The spec: they "are defined
  in terms of \<open>Equal\<close> and \<open>Less\<close>". The model takes not equal for \<open>NotEqual\<close>, neither less
  nor equal for \<open>Greater\<close> (\<open>Equal\<close> is not asked when \<open>Less\<close> holds), not greater for
  \<open>LessOrEqual\<close> and not less for \<open>GreaterOrEqual\<close>.
\<close>

definition negate :: "bool result \<times> machine \<Rightarrow> bool result \<times> machine" where
  "negate r = bind_call r (\<lambda>b m. (Value (\<not> b), m))"

definition NotEqual :: "executor \<Rightarrow> holder \<Rightarrow> holder \<Rightarrow> machine \<Rightarrow> bool result \<times> machine" where
  "NotEqual ex lhs rhs m = negate (Equal ex lhs rhs m)"

definition Greater :: "executor \<Rightarrow> holder \<Rightarrow> holder \<Rightarrow> machine \<Rightarrow> bool result \<times> machine" where
  "Greater ex lhs rhs m =
     bind_call (Less ex lhs rhs m) (\<lambda>less m1.
       if less then (Value False, m1) else negate (Equal ex lhs rhs m1))"

definition LessOrEqual :: "executor \<Rightarrow> holder \<Rightarrow> holder \<Rightarrow> machine \<Rightarrow> bool result \<times> machine" where
  "LessOrEqual ex lhs rhs m = negate (Greater ex lhs rhs m)"

definition GreaterOrEqual :: "executor \<Rightarrow> holder \<Rightarrow> holder \<Rightarrow> machine \<Rightarrow> bool result \<times> machine" where
  "GreaterOrEqual ex lhs rhs m = negate (Less ex lhs rhs m)"

text \<open>
  What a build of the program settles and the source leaves open.
  \<^item> \<open>Comparison::Execute\<close> evaluates both operands as the arguments of one call of the
    comparator. C++ does not say which argument of a call is evaluated first: g++ takes the
    last one first, clang the first one. Every other node with two operands evaluates them
    in two statements, the left one first.
  \<^item> The comparators other than the six of the runtime, by number.
\<close>

datatype argument_order = LeftToRight | RightToLeft

record build =
  arguments :: argument_order
  comparator_functions :: "nat \<Rightarrow> executor \<Rightarrow> holder \<Rightarrow> holder \<Rightarrow> machine \<Rightarrow> bool result \<times> machine"

fun apply_comparator ::
  "build \<Rightarrow> comparator \<Rightarrow> executor \<Rightarrow> holder \<Rightarrow> holder \<Rightarrow> machine \<Rightarrow> bool result \<times> machine" where
  "apply_comparator bld CmpEqual = Equal"
| "apply_comparator bld CmpLess = Less"
| "apply_comparator bld CmpNotEqual = NotEqual"
| "apply_comparator bld CmpGreater = Greater"
| "apply_comparator bld CmpLessOrEqual = LessOrEqual"
| "apply_comparator bld CmpGreaterOrEqual = GreaterOrEqual"
| "apply_comparator bld (CmpFunction i) = comparator_functions bld i"

subsection \<open>Execute\<close>

text \<open>
  \<open>VariableValue::Execute\<close> walks the dotted ids: every id but the last must be bound, and
  is taken for an instance without a test (\<open>TryAs<ClassInstance>()->Fields()\<close>).
\<close>

fun VariableValue_Execute :: "string list \<Rightarrow> closure \<Rightarrow> (addr \<Rightarrow> closure) \<Rightarrow> holder result" where
  "VariableValue_Execute [] c h = Undefined"
| "VariableValue_Execute [x] c h =
     (case c x of
        None \<Rightarrow> RuntimeError (''variable '' @ x @ '' not found'')
      | Some v \<Rightarrow> Value v)"
| "VariableValue_Execute (x # y # ys) c h =
     (case c x of
        None \<Rightarrow> RuntimeError (''variable '' @ x @ '' not found'')
      | Some (VInstance this cls) \<Rightarrow> VariableValue_Execute (y # ys) (h this) h
      | Some _ \<Rightarrow> Undefined)"

text \<open>
  \<open>Print::Execute\<close> collects the text of its arguments in a local stream and writes it,
  with the line end, only when all of them have been evaluated.
\<close>

fun AppendRest :: "executor \<Rightarrow> nat \<Rightarrow> stmt list \<Rightarrow> closure \<Rightarrow> machine \<Rightarrow> string exec_result" where
  "AppendRest ex k [] c m = (Value [], c, m)"
| "AppendRest ex k (statement # rest) c m =
     bind (AppendByStatement ex k statement c m) (\<lambda>t c1 m1.
       bind (AppendRest ex k rest c1 m1) (\<lambda>ts c2 m2. (Value (CHR '' '' # t @ ts), c2, m2)))"

definition Print_Execute :: "executor \<Rightarrow> nat \<Rightarrow> stmt list \<Rightarrow> closure \<Rightarrow> machine \<Rightarrow> holder exec_result" where
  "Print_Execute ex k args c m =
     bind (case args of
             [] \<Rightarrow> (Value [], c, m)
           | front # rest \<Rightarrow>
               bind (AppendByStatement ex k front c m) (\<lambda>t c1 m1.
                 bind (AppendRest ex k rest c1 m1) (\<lambda>ts c2 m2. (Value (t @ ts), c2, m2))))
       (\<lambda>ss c1 m1. (Value VNone, c1, m1\<lparr>output_stream := output_stream m1 @ ss @ [CHR 0x0A]\<rparr>))"

fun Compound_Execute :: "executor \<Rightarrow> stmt list \<Rightarrow> closure \<Rightarrow> machine \<Rightarrow> holder exec_result" where
  "Compound_Execute ex [] c m = (Value VNone, c, m)"
| "Compound_Execute ex (statement # rest) c m =
     bind (ex statement c m) (\<lambda>v c1 m1. Compound_Execute ex rest c1 m1)"

text \<open>
  Arithmetic of \<open>int\<close>, 32 bits. Overflow of \<open>+\<close>, \<open>-\<close>, \<open>*\<close> is undefined in C++ and
  wraps around on the usual targets, which the model follows. Division truncates toward
  zero; the one quotient that overflows, of \<open>INT_MIN\<close> by -1, traps.
\<close>

definition wrap_int :: "int \<Rightarrow> int" where
  "wrap_int x = (x + 2147483648) mod 4294967296 - 2147483648"

definition cpp_div :: "int \<Rightarrow> int \<Rightarrow> int" where
  "cpp_div a b = sgn a * sgn b * (\<bar>a\<bar> div \<bar>b\<bar>)"

text \<open>
  \<open>binary_operands\<close> is the two statements \<open>lhs_->Execute\<close>, \<open>rhs_->Execute\<close> of
  \<open>Add\<close>, \<open>Sub\<close>, \<open>Mult\<close> and \<open>Div\<close>; \<open>call_arguments\<close> is the two arguments of the
  comparator's call in \<open>Comparison\<close>, in the order of the build.
\<close>

definition binary_operands :: "executor \<Rightarrow> stmt \<Rightarrow> stmt \<Rightarrow> closure \<Rightarrow> machine \<Rightarrow> (holder \<times> holder) exec_result" where
  "binary_operands ex lhs rhs c m =
     bind (ex lhs c m) (\<lambda>lhs_holder c1 m1.
       bind (ex rhs c1 m1) (\<lambda>rhs_holder c2 m2. (Value (lhs_holder, rhs_holder), c2, m2)))"

definition call_arguments ::
  "build \<Rightarrow> executor \<Rightarrow> stmt \<Rightarrow> stmt \<Rightarrow> closure \<Rightarrow> machine \<Rightarrow> (holder \<times> holder) exec_result" where
  "call_arguments bld ex lhs rhs c m =
     (case arguments bld of
        LeftToRight \<Rightarrow>
          bind (ex lhs c m) (\<lambda>lhs_holder c1 m1.
            bind (ex rhs c1 m1) (\<lambda>rhs_holder c2 m2. (Value (lhs_holder, rhs_holder), c2, m2)))
      | RightToLeft \<Rightarrow>
          bind (ex rhs c m) (\<lambda>rhs_holder c1 m1.
            bind (ex lhs c1 m1) (\<lambda>lhs_holder c2 m2. (Value (lhs_holder, rhs_holder), c2, m2))))"

text \<open>
  \<open>Execute\<close> of every node, over an executor \<open>ex\<close> for the nodes below it. In an
  assignment the right-hand side is evaluated before the left (C++17).
\<close>

fun Execute :: "build \<Rightarrow> executor \<Rightarrow> nat \<Rightarrow> stmt \<Rightarrow> closure \<Rightarrow> machine \<Rightarrow> holder exec_result" where
  "Execute bld ex k (NumericConst n) c m = (Value (VNumber n), c, m)"
| "Execute bld ex k (StringConst s) c m = (Value (VString s), c, m)"
| "Execute bld ex k (BoolConst b) c m = (Value (VBool b), c, m)"
| "Execute bld ex k NoneConst c m = (Value VNone, c, m)"
| "Execute bld ex k (VariableValue dotted_ids) c m =
     (VariableValue_Execute dotted_ids c (instance_fields m), c, m)"
| "Execute bld ex k (Assignment var rv) c m =
     bind (ex rv c m) (\<lambda>v c1 m1. (Value v, c1(var \<mapsto> v), m1))"
| "Execute bld ex k (FieldAssignment object field_name rv) c m =
     bind (VariableValue_Execute object c (instance_fields m), c, m) (\<lambda>obj c0 m0.
       case obj of
         VInstance this cls \<Rightarrow>
           bind (ex rv c0 m0) (\<lambda>v c1 m1.
             (Value v, c1,
              m1\<lparr>instance_fields := (instance_fields m1)(this := (instance_fields m1 this)(field_name \<mapsto> v))\<rparr>))
       | _ \<Rightarrow> (Value VNone, c0, m0))"
| "Execute bld ex k (Print args) c m = Print_Execute ex k args c m"
| "Execute bld ex k (MethodCall object method args) c m =
     bind (ex object c m) (\<lambda>obj c1 m1.
       case obj of
         VInstance this cls \<Rightarrow>
           if HasMethod cls method (length args)
           then bind (ExecuteArguments ex args c1 m1) (\<lambda>actual_args c2 m2.
                  with_closure c2 (Call ex this cls method actual_args m2))
           else (RuntimeError ''not a class instance'', c1, m1)
       | _ \<Rightarrow> (RuntimeError ''not a class instance'', c1, m1))"
| "Execute bld ex k (NewInstance this cls args) c m =
     (if HasMethod cls ''__init__'' (length args)
      then bind (ExecuteArguments ex args c m) (\<lambda>actual_args c1 m1.
             bind (with_closure c1 (Call ex this cls ''__init__'' actual_args m1)) (\<lambda>r c2 m2.
               (Value (VInstance this cls), c2, m2)))
      else (Value (VInstance this cls), c, m))"
| "Execute bld ex k (Stringify arg) c m =
     bind (AppendByStatement ex k arg c m) (\<lambda>ss c1 m1. (Value (VString ss), c1, m1))"
| "Execute bld ex k (Add lhs rhs) c m =
     bind (binary_operands ex lhs rhs c m) (\<lambda>(lhs_holder, rhs_holder) c1 m1.
       case (lhs_holder, rhs_holder) of
         (VNumber a, VNumber b) \<Rightarrow> (Value (VNumber (wrap_int (a + b))), c1, m1)
       | (VString a, VString b) \<Rightarrow> (Value (VString (a @ b)), c1, m1)
       | _ \<Rightarrow>
         (case dunder_target lhs_holder ''__add__'' of
            Some (this, cls) \<Rightarrow> with_closure c1 (Call ex this cls ''__add__'' [rhs_holder] m1)
          | None \<Rightarrow> (RuntimeError ''cannot add arguments'', c1, m1)))"
| "Execute bld ex k (Sub lhs rhs) c m =
     bind (binary_operands ex lhs rhs c m) (\<lambda>(lhs_holder, rhs_holder) c1 m1.
       case (lhs_holder, rhs_holder) of
         (VNumber a, VNumber b) \<Rightarrow> (Value (VNumber (wrap_int (a - b))), c1, m1)
       | _ \<Rightarrow> (RuntimeError ''cannot substract arguments (valid for numbers only)'', c1, m1))"
| "Execute bld ex k (Mult lhs rhs) c m =
     bind (binary_operands ex lhs rhs c m) (\<lambda>(lhs_holder, rhs_holder) c1 m1.
       case (lhs_holder, rhs_holder) of
         (VNumber a, VNumber b) \<Rightarrow> (Value (VNumber (wrap_int (a * b))), c1, m1)
       | _ \<Rightarrow> (RuntimeError ''cannot multiply arguments (valid for numbers only)'', c1, m1))"
| "Execute bld ex k (Div lhs rhs) c m =
     bind (binary_operands ex lhs rhs c m) (\<lambda>(lhs_holder, rhs_holder) c1 m1.
       case (lhs_holder, rhs_holder) of
         (VNumber a, VNumber b) \<Rightarrow>
           if b = 0 then (RuntimeError ''try to divide to zero'', c1, m1)
           else if a = - 2147483648 \<and> b = - 1 then (Undefined, c1, m1)
           else (Value (VNumber (cpp_div a b)), c1, m1)
       | _ \<Rightarrow> (RuntimeError ''cannot divide arguments (valid for numbers only)'', c1, m1))"
| "Execute bld ex k (Or lhs rhs) c m =
     bind (ex lhs c m) (\<lambda>l c1 m1.
       if \<not> IsTrue l
       then bind (ex rhs c1 m1) (\<lambda>r c2 m2. (Value (VBool (IsTrue r)), c2, m2))
       else (Value (VBool True), c1, m1))"
| "Execute bld ex k (And lhs rhs) c m =
     bind (ex lhs c m) (\<lambda>l c1 m1.
       if IsTrue l
       then bind (ex rhs c1 m1) (\<lambda>r c2 m2. (Value (VBool (IsTrue r)), c2, m2))
       else (Value (VBool False), c1, m1))"
| "Execute bld ex k (NotOp arg) c m =
     bind (ex arg c m) (\<lambda>v c1 m1. (Value (VBool (\<not> IsTrue v)), c1, m1))"
| "Execute bld ex k (Compound statements) c m =
     bind (Compound_Execute ex statements c m) (\<lambda>v c1 m1. (Value VNone, c1, m1))"
| "Execute bld ex k (MethodBody b) c m =
     (case ex b c m of
        (Thrown holder, c1, m1) \<Rightarrow> (Value holder, c1, m1)
      | (Value v, c1, m1) \<Rightarrow> (Value VNone, c1, m1)
      | other \<Rightarrow> other)"
| "Execute bld ex k (Return statement) c m =
     bind (ex statement c m) (\<lambda>v c1 m1. (Thrown v, c1, m1))"
| "Execute bld ex k (ClassDefinition cls) c m = (Value VNone, c(GetName cls \<mapsto> VClass cls), m)"
| "Execute bld ex k (IfElse condition if_body else_body) c m =
     bind (ex condition c m) (\<lambda>v c1 m1.
       if IsTrue v then ex if_body c1 m1
       else case else_body of
              Some e \<Rightarrow> ex e c1 m1
            | None \<Rightarrow> (Value VNone, c1, m1))"
| "Execute bld ex k (Comparison cmp lhs rhs) c m =
     bind (call_arguments bld ex lhs rhs c m) (\<lambda>(lhs_holder, rhs_holder) c1 m1.
       bind (with_closure c1 (apply_comparator bld cmp ex lhs_holder rhs_holder m1)) (\<lambda>b c2 m2.
         (Value (VBool b), c2, m2)))"

text \<open>
  The evaluator of a build: \<open>exec bld n\<close> follows nested \<open>Execute\<close> calls to depth \<open>n\<close>.
  The two builds used in examples have no comparators of their own.
\<close>

primrec exec :: "build \<Rightarrow> nat \<Rightarrow> executor" where
  "exec bld 0 = (\<lambda>s c m. (OutOfFuel, c, m))"
| "exec bld (Suc n) = Execute bld (exec bld n) n"

definition left_to_right :: build where
  "left_to_right = \<lparr>arguments = LeftToRight, comparator_functions = (\<lambda>i ex lhs rhs m. (Undefined, m))\<rparr>"

definition right_to_left :: build where
  "right_to_left = \<lparr>arguments = RightToLeft, comparator_functions = (\<lambda>i ex lhs rhs m. (Undefined, m))\<rparr>"

definition initial_machine :: machine where
  "initial_machine = \<lparr>instance_fields = (\<lambda>a. Map.empty), output_stream = []\<rparr>"


section \<open>Predicates of the properties\<close>

text \<open>Two \<open>Newline\<close> tokens in a row, and a \<open>Newline\<close> in front.\<close>

fun consecutive_newlines :: "token list \<Rightarrow> bool" where
  "consecutive_newlines (a # b # ts) = ((a = TNewline \<and> b = TNewline) \<or> consecutive_newlines (b # ts))"
| "consecutive_newlines [a] = False"
| "consecutive_newlines [] = False"

definition starts_with_newline :: "token list \<Rightarrow> bool" where
  "starts_with_newline ts = (case ts of [] \<Rightarrow> False | t # _ \<Rightarrow> t = TNewline)"

definition newline_ok :: "token list \<Rightarrow> bool" where
  "newline_ok ts = (\<not> consecutive_newlines ts \<and> \<not> starts_with_newline ts)"

text \<open>
  The rest of the stream after an opening quote \<open>q\<close> holds the closing quote, read the way
  \<open>ParseString\<close> reads: a backslash takes the next character with it.
\<close>

fun closing_quote :: "char \<Rightarrow> char list \<Rightarrow> bool" where
  "closing_quote q [] = False"
| "closing_quote q [c] = (c = q)"
| "closing_quote q (c # d # cs) =
     (if c = q then True
      else if c = backslash then closing_quote q cs
      else closing_quote q (d # cs))"

text \<open>A call of the lexer appends nothing or one token that is no \<open>Newline\<close>.\<close>

definition appends :: "lexer \<Rightarrow> lex_result \<Rightarrow> bool" where
  "appends l r = (tokens (lexer_of r) = tokens l
                  \<or> (\<exists>t. t \<noteq> TNewline \<and> tokens (lexer_of r) = tokens l @ [t]))"



text \<open>
  The indent stack keeps the count: one more \<open>Indent\<close> than \<open>Dedent\<close> for every entry of
  the stack above the first. A plain step leaves the stack alone and appends no \<open>Indent\<close>
  or \<open>Dedent\<close>.
\<close>

definition indent_balance :: "lexer \<Rightarrow> bool" where
  "indent_balance l =
     (count_token TIndent (tokens l) + 1 = count_token TDedent (tokens l) + length (indent_sizes l))"

definition appends_plain :: "lexer \<Rightarrow> lex_result \<Rightarrow> bool" where
  "appends_plain l r =
     (indent_sizes (lexer_of r) = indent_sizes l
      \<and> (tokens (lexer_of r) = tokens l
         \<or> (\<exists>t. t \<noteq> TIndent \<and> t \<noteq> TDedent \<and> tokens (lexer_of r) = tokens l @ [t])))"

text \<open>Kinds of holders.\<close>

fun is_instance :: "holder \<Rightarrow> bool" where
  "is_instance (VInstance this cls) = True"
| "is_instance _ = False"

fun has_dunder :: "holder \<Rightarrow> string \<Rightarrow> bool" where
  "has_dunder (VInstance this cls) name = HasMethod cls name 1"
| "has_dunder _ name = False"

fun like_kinded :: "holder \<Rightarrow> holder \<Rightarrow> bool" where
  "like_kinded (VNumber a) (VNumber b) = True"
| "like_kinded (VString a) (VString b) = True"
| "like_kinded (VBool a) (VBool b) = True"
| "like_kinded _ _ = False"

text \<open>
  Some method of that name and arity is declared by the class or by an ancestor, whether
  or not \<open>GetMethod\<close> finds it first.
\<close>

fun declares :: "klass \<Rightarrow> string \<Rightarrow> nat \<Rightarrow> bool" where
  "declares (Class cname methods parent) name argument_count =
     (list_ex (\<lambda>m. method_name m = name \<and> length (formal_params m) = argument_count) methods
      \<or> (case parent of None \<Rightarrow> False | Some p \<Rightarrow> declares p name argument_count))"









text \<open>
  Example programs. \<open>class_E\<close> has \<open>__eq__\<close> and \<open>__lt__\<close>. \<open>reuse_program\<close> is
  \<^verbatim>\<open>
  class A: ...            (no __init__)
  class F:
    def mk():
      return A()
  f = F()
  a = f.mk()
  a.v = 1
  b = f.mk()
  \<close>
  with the instance of the node \<open>A()\<close> at address 1 and that of \<open>F()\<close> at address 2.
\<close>

definition class_E :: klass where
  "class_E = Class ''E''
     [Method ''__eq__'' [''other''] (MethodBody (Return (BoolConst True))),
      Method ''__lt__'' [''other''] (MethodBody (Return (BoolConst False)))] None"

definition class_A :: klass where
  "class_A = Class ''A'' [] None"

definition class_F :: klass where
  "class_F = Class ''F'' [Method ''mk'' [] (MethodBody (Return (NewInstance 1 class_A [])))] None"

definition reuse_prefix :: "stmt list" where
  "reuse_prefix =
     [Assignment ''f'' (NewInstance 2 class_F []),
      Assignment ''a'' (MethodCall (VariableValue [''f'']) ''mk'' []),
      FieldAssignment [''a''] ''v'' (NumericConst 1)]"

definition reuse_program :: stmt where
  "reuse_program = Compound (reuse_prefix @ [Assignment ''b'' (MethodCall (VariableValue [''f'']) ''mk'' [])])"

section \<open>The lexer: newlines\<close>

lemma consecutive_newlines_snoc:
  "consecutive_newlines (ts @ [t]) =
     (consecutive_newlines ts \<or> (ts \<noteq> [] \<and> last ts = TNewline \<and> t = TNewline))"
proof (induction ts rule: consecutive_newlines.induct)
  case (1 a b ts)
  then show ?case by auto
qed auto

lemma starts_with_newline_snoc:
  "starts_with_newline (ts @ [t]) = (starts_with_newline ts \<or> (ts = [] \<and> t = TNewline))"
  by (cases ts) (auto simp: starts_with_newline_def)

lemma MoveToNextToken_loop_exit_gen:
  "skip \<Longrightarrow> MoveToNextToken_loop skip inp = (n, rest) \<Longrightarrow> peek rest \<noteq> Some newline"
proof (induction skip inp arbitrary: n rest rule: MoveToNextToken_loop.induct)
  case (1 skip inp)
  define inp1 where "inp1 = dropWhile (\<lambda>c. c = space) inp"
  define inp2 where "inp2 = (if peek inp1 = Some hash then dropWhile (\<lambda>c. c \<noteq> newline) inp1 else inp1)"
  have unfold: "MoveToNextToken_loop skip inp =
      (if peek inp2 = Some newline \<and> skip then MoveToNextToken_loop skip (ignore inp2)
       else (length (takeWhile (\<lambda>c. c = space) inp), inp2))"
    by (subst MoveToNextToken_loop.simps) (simp only: Let_def inp1_def inp2_def)
  show ?case
  proof (cases "peek inp2 = Some newline")
    case True
    with unfold "1.prems" have "MoveToNextToken_loop skip (ignore inp2) = (n, rest)"
      by simp
    moreover have "peek inp2 = Some newline \<and> skip"
      using True "1.prems"(1) by simp
    ultimately show ?thesis
      using "1.IH"[OF refl inp1_def inp2_def _ "1.prems"(1), of n rest] by simp
  next
    case False
    with unfold "1.prems" show ?thesis by simp
  qed
qed

lemma MoveToNextToken_loop_exit:
  "MoveToNextToken_loop True inp = (n, rest) \<Longrightarrow> peek rest \<noteq> Some newline"
  by (rule MoveToNextToken_loop_exit_gen[of True]) simp_all

lemma newline_ok_snoc:
  "newline_ok ts \<Longrightarrow> t = TNewline \<longrightarrow> (ts \<noteq> [] \<and> last ts \<noteq> TNewline) \<Longrightarrow> newline_ok (ts @ [t])"
  by (auto simp: newline_ok_def consecutive_newlines_snoc starts_with_newline_snoc)

lemma MoveToNextToken_tokens: "tokens (lexer_of (MoveToNextToken l)) = tokens l"
  by (auto simp: MoveToNextToken_def Let_def split: prod.splits option.splits)

lemma MoveToNextToken_newline:
  assumes "MoveToNextToken l = Next l1" "tokens l = [] \<or> last (tokens l) = TNewline"
  shows "peek (input l1) \<noteq> Some newline"
proof -
  obtain n rest where lp: "MoveToNextToken_loop True (input l) = (n, rest)"
    by (cases "MoveToNextToken_loop True (input l)")
  have sk: "tokens l = [] \<or> CurrentToken_Is l TNewline"
    using assms(2) by (auto simp: CurrentToken_Is_def)
  have "input l1 = rest"
    using assms(1) lp sk unfolding MoveToNextToken_def
    by (auto simp: Let_def split: if_splits option.splits)
  with MoveToNextToken_loop_exit[OF lp] show ?thesis by simp
qed

lemma keywords_table_not_newline: "keywords_table s \<noteq> Some TNewline"
  by (simp add: keywords_table_def)

lemma comparison_lexems_not_newline: "comparison_lexems s \<noteq> Some TNewline"
  by (simp add: comparison_lexems_def)

lemma ParseIndent_appends: "appends l (ParseIndent l)"
  by (simp add: appends_def ParseIndent_def push_back_def split: list.splits)

lemma ParseDigit_appends: "appends l (ParseDigit l)"
  by (simp add: appends_def ParseDigit_def push_back_def Let_def)

lemma ParseIdentifier_appends: "appends l (ParseIdentifier l)"
  using keywords_table_not_newline[of "takeWhile ident_char (input l)"]
  by (auto simp: appends_def ParseIdentifier_def push_back_def Let_def split: option.splits)

lemma ParseString_appends: "ParseString l = Some r \<Longrightarrow> appends l r"
  by (auto simp: appends_def ParseString_def push_back_def split: option.splits prod.splits)

lemma ParseLexem_appends: "appends l (ParseLexem l)"
proof -
  obtain c inp1 where g: "get_char (input l) = (c, inp1)"
    by (cases "get_char (input l)")
  show ?thesis
    using comparison_lexems_not_newline[of "[c, CHR ''='']"] g
    by (auto simp: appends_def ParseLexem_def push_back_def split: option.splits)
qed

lemma ParseEof_tokens:
  "tokens (lexer_of (ParseEof l)) = tokens l @ [TEof]
   \<or> (tokens (lexer_of (ParseEof l)) = tokens l @ [TNewline] \<and> tokens l \<noteq> [] \<and> last (tokens l) \<noteq> TNewline)"
  by (auto simp: ParseEof_def push_back_def CurrentToken_Is_def)

lemma appends_newline_ok: "newline_ok (tokens l) \<Longrightarrow> appends l r \<Longrightarrow> newline_ok (tokens (lexer_of r))"
  by (auto simp: appends_def intro: newline_ok_snoc)

lemma NextToken_cases:
  assumes "NextToken l0 = Some r" "MoveToNextToken l0 = Next l"
  shows "r = Throws EmptyStack l \<or> r = ParseIndent l \<or> r = ParseDigit l \<or> r = ParseIdentifier l
       \<or> ParseString l = Some r \<or> r = ParseLexem l
       \<or> (peek_char (input l) = newline \<and> r = ParseNewLine l) \<or> r = ParseEof l
       \<or> (peek_char (input l) \<noteq> newline
           \<and> r = Next (push_back (TChar (peek_char (input l))) (l\<lparr>input := ignore (input l)\<rparr>)))"
  using assms(1) unfolding NextToken_def assms(2)
  by (simp add: Let_def split: option.splits if_splits)

lemma NextToken_newline_ok:
  assumes ok: "newline_ok (tokens l0)" and nt: "NextToken l0 = Some r"
  shows "newline_ok (tokens (lexer_of r))"
proof (cases "MoveToNextToken l0")
  case (Throws e l)
  with nt MoveToNextToken_tokens[of l0] ok show ?thesis
    by (auto simp: NextToken_def)
next
  case (Next l)
  have tk: "tokens l = tokens l0" using MoveToNextToken_tokens[of l0] Next by simp
  have okl: "newline_ok (tokens l)" using ok tk by simp
  have nl: "peek_char (input l) = newline \<Longrightarrow> tokens l \<noteq> [] \<and> last (tokens l) \<noteq> TNewline"
    using MoveToNextToken_newline[OF Next] tk
    by (cases "input l") (auto simp: peek_def peek_char_def EOF_char_def newline_def)
  note ap = appends_newline_ok[OF okl]
  from NextToken_cases[OF nt Next] consider
      "r = Throws EmptyStack l" | "r = ParseIndent l" | "r = ParseDigit l" | "r = ParseIdentifier l"
    | "ParseString l = Some r" | "r = ParseLexem l"
    | "peek_char (input l) = newline" "r = ParseNewLine l" | "r = ParseEof l"
    | "peek_char (input l) \<noteq> newline"
      "r = Next (push_back (TChar (peek_char (input l))) (l\<lparr>input := ignore (input l)\<rparr>))"
    by blast
  then show ?thesis
  proof cases
    case 1
    then show ?thesis using okl by simp
  next
    case 2
    then show ?thesis using ap[OF ParseIndent_appends] by simp
  next
    case 3
    then show ?thesis using ap[OF ParseDigit_appends] by simp
  next
    case 4
    then show ?thesis using ap[OF ParseIdentifier_appends] by simp
  next
    case 5
    then show ?thesis using ap[OF ParseString_appends] by simp
  next
    case 6
    then show ?thesis using ap[OF ParseLexem_appends] by simp
  next
    case 7
    then show ?thesis using nl okl
      by (simp add: ParseNewLine_def push_back_def newline_ok_snoc)
  next
    case 8
    then show ?thesis using ParseEof_tokens[of l] okl
      by (auto intro: newline_ok_snoc)
  next
    case 9
    then show ?thesis using okl
      by (simp add: push_back_def newline_ok_snoc)
  qed
qed

lemma NextTokens_newline_ok:
  "newline_ok (tokens l) \<Longrightarrow> NextTokens k l = Some r \<Longrightarrow> newline_ok (tokens (lexer_of r))"
proof (induction k arbitrary: l)
  case 0
  then show ?case by auto
next
  case (Suc k)
  show ?case
  proof (cases "NextToken l")
    case None
    with Suc.prems show ?thesis by simp
  next
    case (Some r1)
    from NextToken_newline_ok[OF Suc.prems(1) Some] have ok1: "newline_ok (tokens (lexer_of r1))" .
    show ?thesis
    proof (cases r1)
      case (Next l1)
      with Some Suc.prems(2) have "NextTokens k l1 = Some r" by simp
      with Suc.IH[of l1] ok1 Next show ?thesis by simp
    next
      case (Throws e l1)
      with Some Suc.prems(2) ok1 show ?thesis by auto
    qed
  qed
qed


text \<open>
  C7. Whatever the input and however many calls of \<open>NextToken\<close> follow the constructor
  (\<open>NextTokens k\<close> from the initial lexer, the constructor's call being the first), the
  tokens emitted never hold two \<open>Newline\<close> tokens in a row, and the first token is not a
  \<open>Newline\<close>. A call that throws or does not return emits no token.
\<close>

theorem C7_newline_tokens:
  "NextTokens k (initial_lexer inp) = Some r \<Longrightarrow>
   \<not> consecutive_newlines (tokens (lexer_of r)) \<and> \<not> starts_with_newline (tokens (lexer_of r))"
  using NextTokens_newline_ok[of "initial_lexer inp" k r]
  by (simp add: newline_ok_def initial_lexer_def starts_with_newline_def)

theorem C7_newline_tokens_witness:
  "NextTokens 5 (initial_lexer ([newline] @ ''a'' @ [newline, newline] @ ''b'' @ [newline]))
     = Some (Next \<lparr>input = [], current_indent_size = 0, indent_sizes = [0],
                      tokens = [TId ''a'', TNewline, TId ''b'', TNewline, TEof]\<rparr>)
   \<and> \<not> consecutive_newlines [TId ''a'', TNewline, TId ''b'', TNewline, TEof]
   \<and> \<not> starts_with_newline [TId ''a'', TNewline, TId ''b'', TNewline, TEof]"
proof -
  have run: "NextTokens 5 (initial_lexer ([newline] @ ''a'' @ [newline, newline] @ ''b'' @ [newline]))
     = Some (Next \<lparr>input = [], current_indent_size = 0, indent_sizes = [0],
                      tokens = [TId ''a'', TNewline, TId ''b'', TNewline, TEof]\<rparr>)"
    by code_simp
  from C7_newline_tokens[OF run] run show ?thesis by simp
qed

section \<open>The lexer: string literals\<close>

lemma ParseString_loop_returns:
  assumes "ParseString_loop q inp str = Some y" "q \<noteq> EOF_char"
  shows "closing_quote q inp"
proof -
  have "q \<noteq> EOF_char \<longrightarrow> closing_quote q inp"
  proof (rule ParseString_loop.raw_induct
      [where P = "\<lambda>q inp str y. q \<noteq> EOF_char \<longrightarrow> closing_quote q inp", OF _ assms(1)])
    fix rec :: "char \<Rightarrow> char list \<Rightarrow> string \<Rightarrow> (string \<times> char list) option"
    fix q inp str y
    assume IH: "\<And>q inp str y. rec q inp str = Some y \<Longrightarrow> q \<noteq> EOF_char \<longrightarrow> closing_quote q inp"
    assume body: "(case get_char inp of (cur, inp1) \<Rightarrow>
        if cur = q then Some (str, inp1)
        else if cur = backslash then
          (case get_char inp1 of (nxt, inp2) \<Rightarrow>
             if nxt = squote \<or> nxt = dquote then rec q inp2 (str @ [nxt])
             else if nxt = CHR ''n'' then rec q inp2 (str @ [newline])
             else if nxt = CHR ''t'' then rec q inp2 (str @ [tab])
             else rec q inp2 (str @ [cur, nxt]))
        else rec q inp1 (str @ [cur])) = Some y"
    show "q \<noteq> EOF_char \<longrightarrow> closing_quote q inp"
    proof (cases inp)
      case Nil
      with body IH[of q "[]"] show ?thesis
        by (cases y) (auto simp: get_char_def EOF_char_def backslash_def split: if_splits)
    next
      case (Cons c cs)
      show ?thesis
      proof (cases cs)
        case Nil
        with body IH[of q "[]"] Cons show ?thesis
          by (cases y) (auto simp: get_char_def EOF_char_def backslash_def split: if_splits)
      next
        case (Cons d ds)
        with body IH[of q ds] IH[of q "d # ds"] \<open>inp = c # cs\<close> show ?thesis
          by (cases y) (auto simp: get_char_def split: if_splits)
      qed
    qed
  qed
  with assms(2) show ?thesis by simp
qed

lemma ParseString_loop_diverges:
  "q \<noteq> EOF_char \<Longrightarrow> \<not> closing_quote q inp \<Longrightarrow> ParseString_loop q inp str = None"
  using ParseString_loop_returns[of q inp str] by (cases "ParseString_loop q inp str") auto

lemma ParseString_diverges:
  "input l = q # rest \<Longrightarrow> q \<noteq> EOF_char \<Longrightarrow> \<not> closing_quote q rest \<Longrightarrow> ParseString l = None"
  by (simp add: ParseString_def get_char_def ParseString_loop_diverges)


text \<open>
  C3. On the input \<open>'abc\<close>, a string literal that the end of the stream cuts short, the
  constructor's call of \<open>NextToken\<close> does not return: \<open>ParseString\<close> has no test for the
  end of the stream and keeps appending \<open>EOF\<close>. No \<open>LexerError\<close> is thrown.
\<close>

theorem C3_unterminated_string_diverges: "Lexer (squote # ''abc'') = None"
proof -
  define l where "l = initial_lexer (squote # ''abc'')"
  have mv: "MoveToNextToken l = Next l"
    unfolding l_def by code_simp
  have ps: "ParseString l = None"
    by (rule ParseString_diverges[where q = squote and rest = "''abc''"])
       (simp_all add: l_def initial_lexer_def squote_def EOF_char_def backslash_def)
  have c: "peek_char (input l) = squote" "top (indent_sizes l) = Some 0" "current_indent_size l = 0"
    by (simp_all add: l_def initial_lexer_def peek_char_def top_def)
  have d: "\<not> isdigit squote" "\<not> isalpha squote" "squote \<noteq> CHR ''_''"
    by (simp_all add: isdigit_def isalpha_def squote_def)
  show ?thesis
    unfolding Lexer_def l_def[symmetric] NextToken_def mv
    by (simp add: ps c d)
qed

section \<open>The lexer: indentation\<close>

text \<open>Once \<open>Eof\<close> has been emitted at the end of the stream, every further call emits it again.\<close>

lemma NextToken_after_Eof:
  assumes "input l = []" "indent_sizes l = t # rest" "current_indent_size l = t"
    "tokens l \<noteq> []" "last (tokens l) = TEof"
  shows "NextToken l = Some (Next (push_back TEof l))"
proof -
  have lp: "MoveToNextToken_loop False [] = (0, [])"
    by (subst MoveToNextToken_loop.simps) (simp add: peek_def)
  have mv: "MoveToNextToken l = Next l"
    using assms lp by (simp add: MoveToNextToken_def CurrentToken_Is_def)
  have e: "\<not> isdigit EOF_char" "\<not> isalpha EOF_char" "EOF_char \<noteq> CHR ''_''"
    "EOF_char \<noteq> squote" "EOF_char \<noteq> dquote" "EOF_char \<noteq> newline"
    "EOF_char \<noteq> CHR ''!''" "EOF_char \<noteq> CHR ''<''" "EOF_char \<noteq> CHR ''>''" "EOF_char \<noteq> CHR ''=''"
    by (simp_all add: isdigit_def isalpha_def EOF_char_def squote_def dquote_def newline_def)
  show ?thesis
    unfolding NextToken_def mv
    using assms e by (simp add: peek_char_def top_def ParseEof_def CurrentToken_Is_def)
qed

lemma NextTokens_after_Eof:
  assumes "input l = []" "indent_sizes l = t # rest" "current_indent_size l = t"
    "tokens l \<noteq> []" "last (tokens l) = TEof"
  shows "NextTokens k l = Some (Next (l\<lparr>tokens := tokens l @ replicate k TEof\<rparr>))"
  using assms
proof (induction k arbitrary: l)
  case 0
  then show ?case by simp
next
  case (Suc k)
  have "NextTokens k (push_back TEof l)
      = Some (Next ((push_back TEof l)\<lparr>tokens := tokens (push_back TEof l) @ replicate k TEof\<rparr>))"
    using Suc.prems by (intro Suc.IH) (simp_all add: push_back_def)
  then show ?case
    using NextToken_after_Eof[OF Suc.prems]
    by (simp add: push_back_def replicate_append_same)
qed

text \<open>
  The numbers of \<open>Indent\<close> and \<open>Dedent\<close> tokens differ by the height of the indent stack
  above its first entry, at every moment; they are equal exactly when the stack is back to
  one entry.
\<close>

lemma appends_plain_balance:
  "indent_balance l \<Longrightarrow> appends_plain l r \<Longrightarrow> indent_balance (lexer_of r)"
  by (auto simp: indent_balance_def appends_plain_def count_token_def)

lemma MoveToNextToken_plain: "appends_plain l (MoveToNextToken l)"
  by (auto simp: appends_plain_def MoveToNextToken_def Let_def split: prod.splits option.splits)

lemma ParseDigit_plain: "appends_plain l (ParseDigit l)"
  by (simp add: appends_plain_def ParseDigit_def push_back_def Let_def)

lemma keywords_table_plain: "keywords_table s \<noteq> Some TIndent" "keywords_table s \<noteq> Some TDedent"
  by (simp_all add: keywords_table_def)

lemma comparison_lexems_plain: "comparison_lexems s \<noteq> Some TIndent" "comparison_lexems s \<noteq> Some TDedent"
  by (simp_all add: comparison_lexems_def)

lemma ParseIdentifier_plain: "appends_plain l (ParseIdentifier l)"
  using keywords_table_plain[of "takeWhile ident_char (input l)"]
  by (auto simp: appends_plain_def ParseIdentifier_def push_back_def Let_def split: option.splits)

lemma ParseString_plain: "ParseString l = Some r \<Longrightarrow> appends_plain l r"
  by (auto simp: appends_plain_def ParseString_def push_back_def split: option.splits prod.splits)

lemma ParseLexem_plain: "appends_plain l (ParseLexem l)"
proof -
  obtain c inp1 where g: "get_char (input l) = (c, inp1)"
    by (cases "get_char (input l)")
  show ?thesis
    using comparison_lexems_plain[of "[c, CHR ''='']"] g
    by (auto simp: appends_plain_def ParseLexem_def push_back_def split: option.splits)
qed

lemma ParseNewLine_plain: "appends_plain l (ParseNewLine l)"
  by (simp add: appends_plain_def ParseNewLine_def push_back_def)

lemma ParseEof_plain: "appends_plain l (ParseEof l)"
  by (simp add: appends_plain_def ParseEof_def push_back_def)

lemma ParseIndent_balance: "indent_balance l \<Longrightarrow> indent_balance (lexer_of (ParseIndent l))"
  by (auto simp: indent_balance_def ParseIndent_def push_back_def count_token_def split: list.splits)

lemma NextToken_balance:
  assumes nt: "NextToken l0 = Some r" and ok: "indent_balance l0"
  shows "indent_balance (lexer_of r)"
proof (cases "MoveToNextToken l0")
  case (Throws e l)
  with nt appends_plain_balance[OF ok MoveToNextToken_plain] show ?thesis
    by (auto simp: NextToken_def)
next
  case (Next l)
  have okl: "indent_balance l"
    using appends_plain_balance[OF ok MoveToNextToken_plain] Next by simp
  note ap = appends_plain_balance[OF okl]
  from NextToken_cases[OF nt Next] consider
      "r = Throws EmptyStack l" | "r = ParseIndent l" | "r = ParseDigit l" | "r = ParseIdentifier l"
    | "ParseString l = Some r" | "r = ParseLexem l"
    | "r = ParseNewLine l" | "r = ParseEof l"
    | "r = Next (push_back (TChar (peek_char (input l))) (l\<lparr>input := ignore (input l)\<rparr>))"
    by blast
  then show ?thesis
  proof cases
    case 1
    then show ?thesis using okl by simp
  next
    case 2
    then show ?thesis using ParseIndent_balance[OF okl] by simp
  next
    case 3
    then show ?thesis using ap[OF ParseDigit_plain] by simp
  next
    case 4
    then show ?thesis using ap[OF ParseIdentifier_plain] by simp
  next
    case 5
    then show ?thesis using ap[OF ParseString_plain] by simp
  next
    case 6
    then show ?thesis using ap[OF ParseLexem_plain] by simp
  next
    case 7
    then show ?thesis using ap[OF ParseNewLine_plain] by simp
  next
    case 8
    then show ?thesis using ap[OF ParseEof_plain] by simp
  next
    case 9
    then show ?thesis using okl
      by (simp add: push_back_def indent_balance_def count_token_def)
  qed
qed

lemma NextTokens_balance:
  "NextTokens k l = Some r \<Longrightarrow> indent_balance l \<Longrightarrow> indent_balance (lexer_of r)"
proof (induction k arbitrary: l)
  case 0
  then show ?case by auto
next
  case (Suc k)
  show ?case
  proof (cases "NextToken l")
    case None
    with Suc.prems show ?thesis by simp
  next
    case (Some r1)
    from NextToken_balance[OF Some Suc.prems(2)] have ok1: "indent_balance (lexer_of r1)" .
    show ?thesis
    proof (cases r1)
      case (Next l1)
      with Some Suc.prems(1) have "NextTokens k l1 = Some r" by simp
      with Suc.IH[of l1] ok1 Next show ?thesis by simp
    next
      case (Throws e l1)
      with Some Suc.prems(1) ok1 show ?thesis by auto
    qed
  qed
qed

lemma Indent_Dedent_balance:
  assumes "NextTokens k (initial_lexer inp) = Some r"
  shows "count_token TIndent (tokens (lexer_of r)) = count_token TDedent (tokens (lexer_of r))
         \<longleftrightarrow> length (indent_sizes (lexer_of r)) = 1"
proof -
  have "indent_balance (initial_lexer inp)"
    by (simp add: indent_balance_def initial_lexer_def count_token_def)
  from NextTokens_balance[OF assms this] show ?thesis
    by (auto simp: indent_balance_def)
qed

text \<open>
  C2. The input is the three lines \<open>a\<close>, \<open>b\<close> indented by two spaces, and two spaces
  with no line end after them. The lexer runs to \<open>Eof\<close> without throwing, and has emitted
  one \<open>Indent\<close> and no \<open>Dedent\<close>: the spaces before the end of the stream count as the
  indentation of a line, so the block is taken as still open. The indent stack is left at
  \<open>[2, 0]\<close>.
\<close>

theorem C2_trailing_spaces_unbalanced:
  "NextTokens 6 (initial_lexer (''a'' @ [newline] @ ''  b'' @ [newline] @ ''  ''))
     = Some (Next \<lparr>input = [], current_indent_size = 2, indent_sizes = [2, 0],
                      tokens = [TId ''a'', TNewline, TIndent, TId ''b'', TNewline, TEof]\<rparr>)
   \<and> count_token TIndent [TId ''a'', TNewline, TIndent, TId ''b'', TNewline, TEof] = 1
   \<and> count_token TDedent [TId ''a'', TNewline, TIndent, TId ''b'', TNewline, TEof] = 0"
  by code_simp


section \<open>The evaluator: basic facts\<close>

lemma bind_simps [simp]:
  "bind (Value v, c, m) f = f v c m"
  "bind (Thrown h, c, m) f = (Thrown h, c, m)"
  "bind (RuntimeError e, c, m) f = (RuntimeError e, c, m)"
  "bind (Undefined, c, m) f = (Undefined, c, m)"
  "bind (OutOfFuel, c, m) f = (OutOfFuel, c, m)"
  by (simp_all add: bind_def)

lemma bind_call_simps [simp]:
  "bind_call (Value v, m) g = g v m"
  "bind_call (Thrown h, m) g = (Thrown h, m)"
  "bind_call (RuntimeError e, m) g = (RuntimeError e, m)"
  "bind_call (Undefined, m) g = (Undefined, m)"
  "bind_call (OutOfFuel, m) g = (OutOfFuel, m)"
  by (simp_all add: bind_call_def)

lemma with_closure_simp [simp]: "with_closure c (r, m) = (r, c, m)"
  by (simp add: with_closure_def)

lemma bind_Value_result:
  assumes "bind r f = (Value v, c, m)"
  obtains u c0 m0 where "r = (Value u, c0, m0)" "f u c0 m0 = (Value v, c, m)"
proof -
  obtain x c0 m0 where r: "r = (x, c0, m0)" by (cases r)
  with assms show ?thesis
    by (cases x) (auto intro: that)
qed















section \<open>Return\<close>




section \<open>And, Or\<close>

lemma And_Boolean:
  assumes "exec bld k (And L R) c m = (Value v, c2, m2)"
  shows "\<exists>b. v = VBool b"
proof (cases k)
  case 0
  with assms show ?thesis by simp
next
  case (Suc n)
  with assms have "bind (exec bld n L c m) (\<lambda>l c1 m1.
       if IsTrue l
       then bind (exec bld n R c1 m1) (\<lambda>r c2 m2. (Value (VBool (IsTrue r)), c2, m2))
       else (Value (VBool False), c1, m1)) = (Value v, c2, m2)"
    by simp
  then show ?thesis
    by (elim bind_Value_result) (auto split: if_splits elim!: bind_Value_result)
qed

lemma Or_Boolean:
  assumes "exec bld k (Or L R) c m = (Value v, c2, m2)"
  shows "\<exists>b. v = VBool b"
proof (cases k)
  case 0
  with assms show ?thesis by simp
next
  case (Suc n)
  with assms have "bind (exec bld n L c m) (\<lambda>l c1 m1.
       if \<not> IsTrue l
       then bind (exec bld n R c1 m1) (\<lambda>r c2 m2. (Value (VBool (IsTrue r)), c2, m2))
       else (Value (VBool True), c1, m1)) = (Value v, c2, m2)"
    by simp
  then show ?thesis
    by (elim bind_Value_result) (auto split: if_splits elim!: bind_Value_result)
qed

text \<open>
  C5. When \<open>L\<close> evaluates to a falsy value, \<open>And L R\<close> yields \<open>False\<close> in the closure and
  machine that \<open>L\<close> left, whatever \<open>R\<close> is: \<open>R\<close> is not evaluated and none of its effects
  occur. Likewise \<open>Or L R\<close> yields \<open>True\<close> when \<open>L\<close> evaluates to a truthy value. In the
  other case, when \<open>R\<close> is evaluated and yields a value, the result is the Boolean of its
  truthiness. Whenever \<open>And\<close> or \<open>Or\<close> yields a value at all, it is a Boolean.
\<close>

theorem C5_short_circuit:
  "(exec bld n L c m = (Value l, c1, m1) \<and> \<not> IsTrue l
      \<longrightarrow> exec bld (Suc n) (And L R) c m = (Value (VBool False), c1, m1))
   \<and> (exec bld n' L' c' m' = (Value l', c1', m1') \<and> IsTrue l'
      \<longrightarrow> exec bld (Suc n') (Or L' R') c' m' = (Value (VBool True), c1', m1'))
   \<and> (exec bld i P ci mi = (Value p, cj, mj) \<and> IsTrue p \<and> exec bld i Q cj mj = (Value q, ck, mk)
      \<longrightarrow> exec bld (Suc i) (And P Q) ci mi = (Value (VBool (IsTrue q)), ck, mk))
   \<and> (exec bld i' P' ci' mi' = (Value p', cj', mj') \<and> \<not> IsTrue p' \<and> exec bld i' Q' cj' mj' = (Value q', ck', mk')
      \<longrightarrow> exec bld (Suc i') (Or P' Q') ci' mi' = (Value (VBool (IsTrue q')), ck', mk'))
   \<and> (exec bld k (And A B) ca ma = (Value v, c2, m2) \<longrightarrow> (\<exists>b. v = VBool b))
   \<and> (exec bld k' (Or A' B') ca' ma' = (Value v', c2', m2') \<longrightarrow> (\<exists>b. v' = VBool b))"
  using And_Boolean[of bld k A B ca ma v c2 m2] Or_Boolean[of bld k' A' B' ca' ma' v' c2' m2']
  by simp

theorem C5_short_circuit_witness:
  "exec right_to_left 2 (And (BoolConst False) (Print [StringConst ''SIDE''])) Map.empty initial_machine
     = (Value (VBool False), Map.empty, initial_machine)
   \<and> exec right_to_left 2 (Or (NumericConst 1) (Print [StringConst ''SIDE''])) Map.empty initial_machine
     = (Value (VBool True), Map.empty, initial_machine)
   \<and> exec right_to_left 2 (And (BoolConst True) (StringConst [])) Map.empty initial_machine
     = (Value (VBool False), Map.empty, initial_machine)
   \<and> exec right_to_left 2 (Or (BoolConst False) (StringConst ''x'')) Map.empty initial_machine
     = (Value (VBool True), Map.empty, initial_machine)"
proof -
  have two: "(2::nat) = Suc (Suc 0)" by simp
  have a: "exec right_to_left (Suc 0) (BoolConst False) Map.empty initial_machine
      = (Value (VBool False), Map.empty, initial_machine) \<and> \<not> IsTrue (VBool False)"
    by (simp add: IsTrue_def)
  have b: "exec right_to_left (Suc 0) (NumericConst 1) Map.empty initial_machine
      = (Value (VNumber 1), Map.empty, initial_machine) \<and> IsTrue (VNumber 1)"
    by (simp add: IsTrue_def)
  have c: "exec right_to_left (Suc 0) (BoolConst True) Map.empty initial_machine
      = (Value (VBool True), Map.empty, initial_machine) \<and> IsTrue (VBool True)
    \<and> exec right_to_left (Suc 0) (StringConst []) Map.empty initial_machine
      = (Value (VString []), Map.empty, initial_machine) \<and> \<not> IsTrue (VString [])"
    by (simp add: IsTrue_def)
  have d: "exec right_to_left (Suc 0) (StringConst ''x'') Map.empty initial_machine
      = (Value (VString ''x''), Map.empty, initial_machine) \<and> IsTrue (VString ''x'')"
    by (simp add: IsTrue_def)
  have e: "exec right_to_left 2 (And (BoolConst True) (StringConst [])) Map.empty initial_machine
     = (Value (VBool False), Map.empty, initial_machine)"
    by (simp add: two IsTrue_def)
  have f: "exec right_to_left 2 (Or (BoolConst False) (StringConst ''x'')) Map.empty initial_machine
     = (Value (VBool True), Map.empty, initial_machine)"
    by (simp add: two IsTrue_def)
  show ?thesis
    using C5_short_circuit[of right_to_left "Suc 0" "BoolConst False" Map.empty initial_machine "VBool False"
        Map.empty initial_machine "Print [StringConst ''SIDE'']"
        "Suc 0" "NumericConst 1" Map.empty initial_machine "VNumber 1" Map.empty initial_machine
        "Print [StringConst ''SIDE'']"
        "Suc 0" "BoolConst True" Map.empty initial_machine "VBool True" Map.empty initial_machine
        "StringConst []" "VString []" Map.empty initial_machine
        "Suc 0" "BoolConst False" Map.empty initial_machine "VBool False" Map.empty initial_machine
        "StringConst ''x''" "VString ''x''" Map.empty initial_machine
        2 "BoolConst True" "StringConst []" Map.empty initial_machine "VBool False" Map.empty initial_machine
        2 "BoolConst False" "StringConst ''x''" Map.empty initial_machine "VBool True" Map.empty initial_machine]
      a b c d e f
    by (simp add: two)
qed

section \<open>NewInstance\<close>

lemma HasMethod_declares: "HasMethod cls name argc \<Longrightarrow> declares cls name argc"
proof (induction cls name rule: GetMethod.induct)
  case (1 cname methods parent name)
  show ?case
  proof (cases "find (\<lambda>m. method_name m = name) methods")
    case (Some mt)
    then have "mt \<in> set methods" "method_name mt = name"
      by (auto simp: find_Some_iff)
    moreover from "1.prems" Some have "length (formal_params mt) = argc"
      by (simp add: HasMethod_def)
    ultimately show ?thesis
      by (auto simp: list_ex_iff)
  next
    case None
    show ?thesis
    proof (cases parent)
      case N: None
      with None "1.prems" show ?thesis by (simp add: HasMethod_def)
    next
      case (Some p)
      with None "1.prems" have "HasMethod p name argc"
        by (simp add: HasMethod_def)
      from "1.IH"[OF None Some this] Some show ?thesis by simp
    qed
  qed
qed

text \<open>
  C8. When the class has no \<open>__init__\<close> for the number of arguments (\<open>HasMethod\<close> fails,
  which it does in particular when neither the class nor an ancestor declares one, by
  \<open>HasMethod_declares\<close>), \<open>NewInstance\<close> returns its instance and leaves the closure and
  the machine (fields and output) as they were, whatever the arguments are: they are not
  evaluated.
\<close>

theorem C8_no_init_no_arguments:
  "\<not> HasMethod cls ''__init__'' (length args) \<Longrightarrow>
   exec bld (Suc n) (NewInstance this cls args) c m = (Value (VInstance this cls), c, m)"
  by simp

theorem C8_no_init_no_arguments_witness:
  "\<not> HasMethod class_A ''__init__'' (length [Print [StringConst ''SIDE'']])
   \<and> exec right_to_left (Suc 0) (NewInstance 1 class_A [Print [StringConst ''SIDE'']]) Map.empty initial_machine
       = (Value (VInstance 1 class_A), Map.empty, initial_machine)"
proof -
  have h: "\<not> HasMethod class_A ''__init__'' (length [Print [StringConst ''SIDE'']])"
    by (simp add: HasMethod_def class_A_def)
  from C8_no_init_no_arguments[OF h, of right_to_left 0 1 Map.empty initial_machine] h show ?thesis
    by simp
qed

text \<open>With an \<open>__init__\<close> for the number of arguments, it runs on the evaluated arguments.\<close>

lemma NewInstance_init:
  "HasMethod cls ''__init__'' (length args) \<Longrightarrow>
   ExecuteArguments (exec bld n) args c m = (Value actual_args, c1, m1) \<Longrightarrow>
   Call (exec bld n) this cls ''__init__'' actual_args m1 = (Value r, m2) \<Longrightarrow>
   exec bld (Suc n) (NewInstance this cls args) c m = (Value (VInstance this cls), c1, m2)"
  by simp

text \<open>
  C6. In \<open>reuse_program\<close> the node \<open>A()\<close> is executed twice, by the two calls of
  \<open>f.mk()\<close>; class \<open>A\<close> has no \<open>__init__\<close>. Both executions return the one instance that
  the node owns: \<open>a\<close> and \<open>b\<close> are the same object, and the instance returned by the second
  execution has the field \<open>v\<close> that was assigned through \<open>a\<close>.
\<close>

theorem C6_instance_reused:
  "\<not> HasMethod class_A ''__init__'' 0
   \<and> fst (exec bld 6 reuse_program Map.empty initial_machine) = Value VNone
   \<and> fst (snd (exec bld 6 reuse_program Map.empty initial_machine)) ''a'' = Some (VInstance 1 class_A)
   \<and> fst (snd (exec bld 6 reuse_program Map.empty initial_machine)) ''b'' = Some (VInstance 1 class_A)
   \<and> instance_fields (snd (snd (exec bld 6 reuse_program Map.empty initial_machine))) 1 ''v''
       = Some (VNumber 1)"
  by code_simp

section \<open>FieldAssignment\<close>

text \<open>
  C9. When the object path of a \<open>FieldAssignment\<close> resolves to a value that is not an
  instance, the statement returns none and leaves the closure and the machine as they
  were, whatever the right-hand side is: it is not evaluated, and nothing is thrown.
\<close>

theorem C9_field_of_non_instance:
  "VariableValue_Execute object c (instance_fields m) = Value v \<Longrightarrow> \<not> is_instance v \<Longrightarrow>
   exec bld (Suc n) (FieldAssignment object field_name rv) c m = (Value VNone, c, m)"
  by (cases v) simp_all

theorem C9_field_of_non_instance_witness:
  "VariableValue_Execute [''x''] [''x'' \<mapsto> VNumber 1] (instance_fields initial_machine) = Value (VNumber 1)
   \<and> \<not> is_instance (VNumber 1)
   \<and> exec right_to_left (Suc 0) (FieldAssignment [''x''] ''f'' (Print [StringConst ''SIDE''])) [''x'' \<mapsto> VNumber 1] initial_machine
       = (Value VNone, [''x'' \<mapsto> VNumber 1], initial_machine)"
proof -
  have h: "VariableValue_Execute [''x''] [''x'' \<mapsto> VNumber 1] (instance_fields initial_machine) = Value (VNumber 1)"
    by simp
  have i: "\<not> is_instance (VNumber 1)" by simp
  from C9_field_of_non_instance[OF h i, of right_to_left 0 "''f''" "Print [StringConst ''SIDE'']"] h i show ?thesis
    by simp
qed

section \<open>Equal, Less\<close>

lemma Equal_dispatch:
  "HasMethod cls ''__eq__'' 1 \<Longrightarrow>
   Equal ex (VInstance this cls) rhs m = GetValue_Bool (Call ex this cls ''__eq__'' [rhs] m)"
  by (simp add: Equal_def dunder_target_def)

lemma Less_dispatch:
  "HasMethod cls ''__lt__'' 1 \<Longrightarrow>
   Less ex (VInstance this cls) rhs m = GetValue_Bool (Call ex this cls ''__lt__'' [rhs] m)"
  by (simp add: Less_def dunder_target_def)

lemma Equal_remaining:
  "\<not> like_kinded lhs rhs \<Longrightarrow> \<not> (lhs = VNone \<and> rhs = VNone) \<Longrightarrow> \<not> has_dunder lhs ''__eq__'' \<Longrightarrow>
   Equal ex lhs rhs m = (RuntimeError ''no viable equal operator'', m)"
  by (cases lhs; cases rhs) (simp_all add: Equal_def dunder_target_def)

lemma Less_remaining:
  "\<not> like_kinded lhs rhs \<Longrightarrow> \<not> has_dunder lhs ''__lt__'' \<Longrightarrow>
   Less ex lhs rhs m = (RuntimeError ''no viable comparator'', m)"
  by (cases lhs; cases rhs) (simp_all add: Less_def dunder_target_def)

lemma Call_unary:
  "GetMethod cls name = Some (Method nm [p] b) \<Longrightarrow>
   Call ex this cls name [rhs] m =
     (case ex b ([''self'' \<mapsto> VInstance this cls](p \<mapsto> rhs)) m of (r, c1, m1) \<Rightarrow> (r, m1))"
  by (simp add: Call_def HasMethod_def)


text \<open>
  C4. \<open>Equal\<close> compares two numbers, two strings or two booleans by value; it is true of
  two nones; when the left operand is an instance with \<open>__eq__\<close> for one argument
  (\<open>HasMethod\<close>: the \<open>__eq__\<close> that method lookup finds takes one parameter), it calls that
  method on the right operand and takes the Boolean it returns; in every remaining case it
  throws a runtime error. \<open>Less\<close> compares numbers, strings and booleans by \<open><\<close>, calls
  \<open>__lt__\<close> in the same way, and throws a runtime error in every remaining case, two nones
  included. The primitive cases and the errors leave the machine as it was.
\<close>

theorem C4_Equal_Less:
  "Equal ex (VNumber a) (VNumber b) m = (Value (a = b), m)
   \<and> Equal ex (VString s) (VString t) m = (Value (s = t), m)
   \<and> Equal ex (VBool p) (VBool q) m = (Value (p = q), m)
   \<and> Equal ex VNone VNone m = (Value True, m)
   \<and> (HasMethod cls ''__eq__'' 1 \<longrightarrow>
        Equal ex (VInstance this cls) rhs m = GetValue_Bool (Call ex this cls ''__eq__'' [rhs] m))
   \<and> (\<not> like_kinded lhs1 rhs1 \<and> \<not> (lhs1 = VNone \<and> rhs1 = VNone) \<and> \<not> has_dunder lhs1 ''__eq__'' \<longrightarrow>
        Equal ex lhs1 rhs1 m = (RuntimeError ''no viable equal operator'', m))
   \<and> Less ex (VNumber a) (VNumber b) m = (Value (a < b), m)
   \<and> Less ex (VString s) (VString t) m = (Value (s < t), m)
   \<and> Less ex (VBool p) (VBool q) m = (Value (p < q), m)
   \<and> (HasMethod cls2 ''__lt__'' 1 \<longrightarrow>
        Less ex (VInstance this2 cls2) rhs2 m = GetValue_Bool (Call ex this2 cls2 ''__lt__'' [rhs2] m))
   \<and> (\<not> like_kinded lhs3 rhs3 \<and> \<not> has_dunder lhs3 ''__lt__'' \<longrightarrow>
        Less ex lhs3 rhs3 m = (RuntimeError ''no viable comparator'', m))"
proof -
  have prim: "Equal ex (VNumber a) (VNumber b) m = (Value (a = b), m)"
    "Equal ex (VString s) (VString t) m = (Value (s = t), m)"
    "Equal ex (VBool p) (VBool q) m = (Value (p = q), m)"
    "Equal ex VNone VNone m = (Value True, m)"
    "Less ex (VNumber a) (VNumber b) m = (Value (a < b), m)"
    "Less ex (VString s) (VString t) m = (Value (s < t), m)"
    "Less ex (VBool p) (VBool q) m = (Value (p < q), m)"
    by (simp_all add: Equal_def Less_def dunder_target_def)
  show ?thesis
    using prim Equal_dispatch[of cls ex this rhs m] Less_dispatch[of cls2 ex this2 rhs2 m]
      Equal_remaining[of lhs1 rhs1 ex m] Less_remaining[of lhs3 rhs3 ex m]
    by blast
qed

lemma class_E_methods:
  "HasMethod class_E ''__eq__'' 1" "HasMethod class_E ''__lt__'' 1"
  "Call (exec bld 3) this class_E ''__eq__'' [rhs] m = (Value (VBool True), m)"
  "Call (exec bld 3) this class_E ''__lt__'' [rhs] m = (Value (VBool False), m)"
  by (simp_all add: HasMethod_def Call_def class_E_def eval_nat_numeral)

theorem C4_Equal_Less_witness:
  "HasMethod class_E ''__eq__'' 1 \<and> HasMethod class_E ''__lt__'' 1
   \<and> Equal (exec right_to_left 3) (VInstance 1 class_E) (VNumber 5) initial_machine = (Value True, initial_machine)
   \<and> Less (exec right_to_left 3) (VInstance 1 class_E) VNone initial_machine = (Value False, initial_machine)
   \<and> Equal (exec right_to_left 3) (VNumber 5) (VString ''5'') initial_machine
       = (RuntimeError ''no viable equal operator'', initial_machine)
   \<and> Less (exec right_to_left 3) VNone VNone initial_machine
       = (RuntimeError ''no viable comparator'', initial_machine)"
  using C4_Equal_Less[of "exec right_to_left 3" 1 2 initial_machine "''a''" "''b''" True False
      class_E 1 "VNumber 5" "VNumber 5" "VString ''5''" class_E 1 VNone VNone VNone]
    class_E_methods(1,2) class_E_methods(3)[of right_to_left 1 "VNumber 5" initial_machine]
    class_E_methods(4)[of right_to_left 1 VNone initial_machine]
  by (simp add: GetValue_Bool_def)

text \<open>
  C10. When the left operand is not an instance (a number, a string, a boolean, none, or
  a class) and the right operand is an instance, \<open>Equal\<close> and \<open>Less\<close> throw their runtime
  error and leave the machine as it was, whatever the executor and whatever methods the
  class of the right operand has: \<open>__eq__\<close> and \<open>__lt__\<close> of the right operand are never
  called.
\<close>

theorem C10_left_biased:
  "\<not> is_instance lhs \<Longrightarrow>
   Equal ex lhs (VInstance this cls) m = (RuntimeError ''no viable equal operator'', m)
   \<and> Less ex lhs (VInstance this cls) m = (RuntimeError ''no viable comparator'', m)"
  by (cases lhs) (simp_all add: Equal_def Less_def dunder_target_def)

theorem C10_left_biased_witness:
  "\<not> is_instance (VNumber 1) \<and> has_dunder (VInstance 1 class_E) ''__eq__''
   \<and> has_dunder (VInstance 1 class_E) ''__lt__''
   \<and> Equal (exec right_to_left 3) (VNumber 1) (VInstance 1 class_E) initial_machine
       = (RuntimeError ''no viable equal operator'', initial_machine)
   \<and> Less (exec right_to_left 3) (VNumber 1) (VInstance 1 class_E) initial_machine
       = (RuntimeError ''no viable comparator'', initial_machine)"
proof -
  have h: "\<not> is_instance (VNumber 1)" by simp
  from C10_left_biased[OF h, of "exec right_to_left 3" 1 class_E initial_machine] h class_E_methods(1,2)
  show ?thesis by simp
qed

end
